theory Spec2Isabelle
  imports Main "HOL-Library.Sublist"
begin

section \<open>Python values\<close>

text \<open>
  The values that reach \<open>flatten\<close> and \<open>shell\<close> as positional arguments: \<open>None\<close>,
  strings, integers, booleans, and the five container types that \<open>flatten\<close> unpacks by
  default (\<open>list\<close>, \<open>deque\<close>, \<open>tuple\<close>, \<open>map\<close>, \<open>Generator\<close>). A container is given by
  its kind and the finite sequence of items that iterating it yields. Floats and other
  objects are left out of the model.
\<close>

datatype kind = KList | KDeque | KTuple | KMap | KGenerator

datatype pyval =
    PNone
  | PStr string
  | PInt int
  | PBool bool
  | PSeq kind "pyval list"

text \<open>
  Python's \<open>==\<close> on these values: booleans compare with integers as 0 and 1; lists,
  deques and tuples compare item by item with a container of the same type; a \<open>map\<close>
  object or a generator is equal to itself only, and two values of the model stand for
  two objects.
\<close>

fun py_eq :: "pyval \<Rightarrow> pyval \<Rightarrow> bool"
  and py_eq_list :: "pyval list \<Rightarrow> pyval list \<Rightarrow> bool" where
  "py_eq PNone PNone = True"
| "py_eq (PStr a) (PStr b) = (a = b)"
| "py_eq (PInt a) (PInt b) = (a = b)"
| "py_eq (PBool a) (PBool b) = (a = b)"
| "py_eq (PInt a) (PBool b) = (a = (if b then 1 else 0))"
| "py_eq (PBool a) (PInt b) = ((if a then 1 else 0) = b)"
| "py_eq (PSeq k xs) (PSeq k' ys) =
     (k = k' \<and> (k = KList \<or> k = KDeque \<or> k = KTuple) \<and> py_eq_list xs ys)"
| "py_eq _ _ = False"
| "py_eq_list [] [] = True"
| "py_eq_list (x # xs) (y # ys) = (py_eq x y \<and> py_eq_list xs ys)"
| "py_eq_list _ _ = False"

text \<open>\<open>item in block\<close> for a tuple or list \<open>block\<close>: some element equals the item.\<close>

definition py_in :: "pyval \<Rightarrow> pyval list \<Rightarrow> bool" where
  "py_in item block = list_ex (\<lambda>e. py_eq item e) block"

section \<open>flatten\<close>

text \<open>
  \<^verbatim>\<open>
  def flatten(*items, cast=list, block=(None, ""), unpack=(list, deque, tuple, map, Generator)):
      def flatten(data):
          if bool(block):
              data = filter(lambda item: (item not in block), data)
          for item in data:
              if isinstance(item, unpack):
                  yield from flatten(item)
                  continue
              yield item
      return cast(flatten(items))
  \<close>
  \<open>block\<close> is the list of the blocked values (\<open>[]\<close> for \<open>None\<close> or an empty container,
  whose \<open>bool\<close> is false), \<open>unpack\<close> the list of the container kinds to unpack.
  \<open>flatten_inner\<close> is the inner generator, as the list of the values it yields;
  \<open>flatten_item\<close> is the body of its loop for one item that passed the (lazy) filter.
  \<open>cast\<close> is \<open>list\<close>.
\<close>

fun flatten_inner :: "pyval list \<Rightarrow> kind list \<Rightarrow> pyval list \<Rightarrow> pyval list"
  and flatten_item :: "pyval list \<Rightarrow> kind list \<Rightarrow> pyval \<Rightarrow> pyval list" where
  "flatten_inner block unpack [] = []"
| "flatten_inner block unpack (item # data) =
     (if block \<noteq> [] \<and> py_in item block then flatten_inner block unpack data
      else flatten_item block unpack item @ flatten_inner block unpack data)"
| "flatten_item block unpack (PSeq k xs) =
     (if k \<in> set unpack then flatten_inner block unpack xs else [PSeq k xs])"
| "flatten_item block unpack PNone = [PNone]"
| "flatten_item block unpack (PStr s) = [PStr s]"
| "flatten_item block unpack (PInt i) = [PInt i]"
| "flatten_item block unpack (PBool b) = [PBool b]"

definition flatten :: "pyval list \<Rightarrow> pyval list \<Rightarrow> kind list \<Rightarrow> pyval list" where
  "flatten items block unpack = flatten_inner block unpack items"

definition default_block :: "pyval list" where
  "default_block = [PNone, PStr '''']"

definition default_unpack :: "kind list" where
  "default_unpack = [KList, KDeque, KTuple, KMap, KGenerator]"

text \<open>
  The items of a nested argument structure from left to right, every container opened:
  the order against which "relative order is preserved" is read.
\<close>

fun leaves :: "pyval list \<Rightarrow> pyval list"
  and leaves_item :: "pyval \<Rightarrow> pyval list" where
  "leaves [] = []"
| "leaves (x # xs) = leaves_item x @ leaves xs"
| "leaves_item (PSeq k xs) = leaves xs"
| "leaves_item PNone = [PNone]"
| "leaves_item (PStr s) = [PStr s]"
| "leaves_item (PInt i) = [PInt i]"
| "leaves_item (PBool b) = [PBool b]"

definition is_seq :: "pyval \<Rightarrow> bool" where
  "is_seq v = (case v of PSeq k xs \<Rightarrow> True | _ \<Rightarrow> False)"


section \<open>str\<close>

text \<open>
  \<open>str(x)\<close> for the values of the model. The decimal form of an integer is written
  out; the text form of a container is whatever the runtime gives (\<open>str_seq\<close>): under
  the default \<open>unpack\<close> no container is left after \<open>flatten\<close>, so \<open>shell\<close> never
  asks for it.
\<close>

definition digit_char :: "nat \<Rightarrow> char" where
  "digit_char d = ''0123456789'' ! d"

fun str_nat :: "nat \<Rightarrow> string" where
  "str_nat n = (if n < 10 then [digit_char n] else str_nat (n div 10) @ [digit_char (n mod 10)])"

declare str_nat.simps [simp del]

definition str_int :: "int \<Rightarrow> string" where
  "str_int i = (if i < 0 then CHR ''-'' # str_nat (nat (- i)) else str_nat (nat i))"

fun py_str :: "(kind \<Rightarrow> pyval list \<Rightarrow> string) \<Rightarrow> pyval \<Rightarrow> string" where
  "py_str r PNone = ''None''"
| "py_str r (PStr s) = s"
| "py_str r (PInt i) = str_int i"
| "py_str r (PBool b) = (if b then ''True'' else ''False'')"
| "py_str r (PSeq k xs) = r k xs"

section \<open>The command dispatcher: shell\<close>

subsection \<open>Data\<close>

text \<open>The exceptions that \<open>shell\<close> raises itself or lets through from its collaborators.\<close>

datatype exn =
    ValueError
  | FileNotFoundError
  | IndexError
  | Abort
  | UnicodeDecodeError
  | CalledProcessError int string
  | OSError string

text \<open>
  What is handed to \<open>subprocess\<close> as the command: the tuple of strings, or, under
  \<open>shell=True\<close>, the one string \<open>' '.join(args)\<close>.
\<close>

datatype cmd = Argv "string list" | Line string

text \<open>
  The named parameters of \<open>shell\<close>, with the defaults of its signature in
  \<open>default_flags\<close>. \<open>env\<close> is \<open>None\<close> or a dictionary.
\<close>

record flags =
  "output" :: bool
  Popen :: bool
  env :: "(string \<rightharpoonup> string) option"
  confirm :: bool
  threaded_stdin :: bool
  skip :: bool
  echo :: bool

definition default_flags :: flags where
  "default_flags = \<lparr>output = False, Popen = False, env = None, confirm = False,
     threaded_stdin = False, skip = False, echo = True\<rparr>"

text \<open>
  \<open>**kwargs\<close>: the three keys that \<open>shell\<close> reads (\<open>shell\<close>, \<open>cwd\<close>, \<open>preexec_fn\<close>;
  \<open>None\<close> when the key is absent, and \<open>preexec_fn\<close> holds the name of a callable when
  present) and the other keys, which go to \<open>subprocess\<close> untouched.
\<close>

record kwargs =
  kw_shell :: "bool option"
  kw_cwd :: "string option"
  kw_preexec_fn :: "string option"
  kw_other :: "(string \<times> string) list"

definition no_kwargs :: kwargs where
  "no_kwargs = \<lparr>kw_shell = None, kw_cwd = None, kw_preexec_fn = None, kw_other = []\<rparr>"

text \<open>
  One call of a process-creation primitive: \<open>subprocess.f(args, **kwargs)\<close>, where
  \<open>kwargs["env"]\<close> (line 148) is kept apart as \<open>c_env\<close>.
\<close>

record call =
  c_args :: cmd
  c_kwargs :: kwargs
  c_env :: "string \<rightharpoonup> string"

datatype level = Skip | Info

text \<open>
  Everything \<open>shell\<close> does to the outside, in the order it does it: the calls of the
  logging sink (\<open>log.error\<close>, \<open>log.skip\<close>/\<open>log.info\<close> with the verb, the argument
  vector, the working directory and \<open>echo\<close>, \<open>log.warning\<close>, \<open>log.minor\<close>), the
  prompt of \<open>click.confirm\<close> with its answer, the three process-creation primitives
  of \<open>subprocess\<close>, and the start of the worker thread of a \<open>StdinWrapper\<close>.
\<close>

datatype event =
    LogError string
  | LogCommand level string "string list" string bool
  | LogWarning string
  | LogMinor string
  | Confirm bool
  | CheckOutput call
  | PopenCall call
  | RunCall call
  | StartWorker nat

text \<open>
  The state outside the call: \<open>os.environ\<close>, \<open>os.name\<close>, \<open>Path.cwd()\<close>, the answers
  the user will give to the next prompts, and the trace of events so far.
\<close>

record world =
  environ :: "string \<rightharpoonup> string"
  os_name :: string
  path_cwd :: string
  answers :: "bool list"
  trace :: "event list"

text \<open>
  The collaborators that are not part of the repository, as functions of what they are
  given: \<open>shutil.which\<close>, \<open>subprocess.check_output\<close> (the bytes of standard output),
  \<open>bytes.decode("utf-8")\<close>, \<open>subprocess.Popen\<close> (the process, by its pid),
  \<open>subprocess.run\<close> (the return code), and \<open>str\<close> on a container.
\<close>

record platform =
  shutil_which :: "string \<Rightarrow> string option"
  sp_check_output :: "call \<Rightarrow> exn + string"
  decode_utf8 :: "string \<Rightarrow> string option"
  sp_Popen :: "call \<Rightarrow> exn + nat"
  sp_run :: "call \<Rightarrow> exn + int"
  str_seq :: "kind \<Rightarrow> pyval list \<Rightarrow> string"

text \<open>
  What \<open>shell\<close> returns: \<open>None\<close>, the decoded output, the \<open>Popen\<close> object (its pid, and
  whether its \<open>stdin\<close> was replaced by a \<open>StdinWrapper\<close>), or the \<open>CompletedProcess\<close>.
\<close>

datatype result =
    RNone
  | RText string
  | RProcess nat bool
  | RCompleted cmd int

subsection \<open>The function\<close>

definition emit :: "event \<Rightarrow> world \<Rightarrow> world" where
  "emit e w = w\<lparr>trace := trace w @ [e]\<rparr>"

text \<open>
  Line 127 reads \<^verbatim>\<open>if (not shell) and (not shutil.which(args[0])):\<close>. No parameter or
  local of the function is named \<open>shell\<close> (the keyword \<open>shell=True\<close> lands in
  \<open>kwargs\<close>, where line 137 reads it), so the name is the module-level function
  \<open>shell\<close> itself, and a function object is true.
\<close>

definition shell_is_true :: bool where
  "shell_is_true = True"

text \<open>
  Lines 126 to 128. \<open>and\<close> evaluates its right operand, and with it \<open>args[0]\<close> (an
  \<open>IndexError\<close> on the empty tuple), only when the left one is true.
\<close>

definition binary_check :: "platform \<Rightarrow> string list \<Rightarrow> world \<Rightarrow> (exn + unit) \<times> world" where
  "binary_check P args w =
     (if \<not> shell_is_true then
        (case args of
           [] \<Rightarrow> (Inl IndexError, w)
         | a # _ \<Rightarrow>
             (case shutil_which P a of
                None \<Rightarrow>
                  (Inl FileNotFoundError,
                   emit (LogError (''Binary doesn'' @ [CHR 0x27] @
                      ''t exist or was not found on PATH ('' @ a @ '')'')) w)
              | Some p \<Rightarrow> (Inr (), w)))
      else (Inr (), w))"

text \<open>\<open>kwargs.get('cwd', '') or Path.cwd()\<close> (line 133).\<close>

definition the_cwd :: "kwargs \<Rightarrow> world \<Rightarrow> string" where
  "the_cwd kw w = (case kw_cwd kw of None \<Rightarrow> path_cwd w | Some c \<Rightarrow> if c = [] then path_cwd w else c)"

text \<open>\<open>kwargs.get("shell", False)\<close> (line 137).\<close>

definition shell_string :: "kwargs \<Rightarrow> bool" where
  "shell_string kw = (case kw_shell kw of None \<Rightarrow> False | Some b \<Rightarrow> b)"

text \<open>
  Lines 139 to 142. The two adjacent literals are one string before \<open>*\<close> applies, so
  the whole text is repeated \<open>not confirm\<close> times: once, or not at all.
\<close>

definition shell_warning :: "bool \<Rightarrow> string" where
  "shell_warning c =
     (if c then []
      else ''Running command with (shell=True), be careful.. Consider using (confirm=True)'')"

text \<open>
  \<open>click.confirm\<close> (line 144): the next answer of the user; \<open>click.Abort\<close> when the
  input has ended.
\<close>

definition click_confirm :: "world \<Rightarrow> (exn + bool) \<times> world" where
  "click_confirm w =
     (case answers w of
        [] \<Rightarrow> (Inl Abort, w)
      | a # rest \<Rightarrow> (Inr a, emit (Confirm a) (w\<lparr>answers := rest\<rparr>)))"

text \<open>\<open>env or {}\<close>: \<open>None\<close> and the empty dictionary are both false.\<close>

definition overlay :: "flags \<Rightarrow> (string \<rightharpoonup> string)" where
  "overlay f = (case env f of None \<Rightarrow> Map.empty | Some e \<Rightarrow> e)"

text \<open>\<open>os.environ | (env or {})\<close> (line 148): a new dictionary, the overlay winning.\<close>

definition merged_env :: "world \<Rightarrow> flags \<Rightarrow> (string \<rightharpoonup> string)" where
  "merged_env w f = environ w ++ overlay f"

text \<open>Lines 154 to 187: the three modes.\<close>

definition dispatch :: "platform \<Rightarrow> flags \<Rightarrow> call \<Rightarrow> world \<Rightarrow> (exn + result) \<times> world" where
  "dispatch P f c w =
     (if output f then
        (case sp_check_output P c of
           Inl e \<Rightarrow> (Inl e, emit (CheckOutput c) w)
         | Inr bytes \<Rightarrow>
             (case decode_utf8 P bytes of
                None \<Rightarrow> (Inl UnicodeDecodeError, emit (CheckOutput c) w)
              | Some text \<Rightarrow> (Inr (RText text), emit (CheckOutput c) w)))
      else if Popen f then
        (case sp_Popen P c of
           Inl e \<Rightarrow> (Inl e, emit (PopenCall c) w)
         | Inr pid \<Rightarrow>
             (if threaded_stdin f
              then (Inr (RProcess pid True), emit (StartWorker pid) (emit (PopenCall c) w))
              else (Inr (RProcess pid False), emit (PopenCall c) w)))
      else
        (case sp_run P c of
           Inl e \<Rightarrow> (Inl e, emit (RunCall c) w)
         | Inr rc \<Rightarrow> (Inr (RCompleted (c_args c) rc), emit (RunCall c) w)))"

text \<open>Lines 147 to 187: the environment, the Windows filter, the dispatch.\<close>

definition launch :: "platform \<Rightarrow> cmd \<Rightarrow> flags \<Rightarrow> kwargs \<Rightarrow> world \<Rightarrow> (exn + result) \<times> world" where
  "launch P a f kw w =
     (let e = merged_env w f in
      if os_name w = ''nt'' then
        (case kw_preexec_fn kw of
           None \<Rightarrow> dispatch P f \<lparr>c_args = a, c_kwargs = kw, c_env = e\<rparr> w
         | Some h \<Rightarrow>
             dispatch P f \<lparr>c_args = a, c_kwargs = kw\<lparr>kw_preexec_fn := None\<rparr>, c_env = e\<rparr>
               (emit (LogMinor ''shell(preexec_fn=...) is not supported on Windows, ignoring..'') w))
      else dispatch P f \<lparr>c_args = a, c_kwargs = kw, c_env = e\<rparr> w)"

text \<open>Lines 144 and 145, then the rest.\<close>

definition confirmed :: "platform \<Rightarrow> cmd \<Rightarrow> flags \<Rightarrow> kwargs \<Rightarrow> world \<Rightarrow> (exn + result) \<times> world" where
  "confirmed P a f kw w =
     (if confirm f then
        (case click_confirm w of
           (Inl e, w1) \<Rightarrow> (Inl e, w1)
         | (Inr yes, w1) \<Rightarrow> if \<not> yes then (Inr RNone, w1) else launch P a f kw w1)
      else launch P a f kw w)"

text \<open>
  \<^verbatim>\<open>
  def shell(*args, output=False, Popen=False, env=None, confirm=False,
            threaded_stdin=False, skip=False, echo=True, **kwargs):
      if (output and Popen):
          raise ValueError(log.error("Cannot use (output=True) and (Popen=True) at the same time"))
      args = tuple(map(str, flatten(args)))
      if (not shell) and (not shutil.which(args[0])):
          raise FileNotFoundError(log.error(...))
      _log = (log.skip if skip else log.info)
      _the = ("Skipping" if skip else "Running")
      _cwd = f" @ ({kwargs.get('cwd', '') or Path.cwd()})"
      _log(_the + f" command {args}{_cwd}", echo=echo)
      if skip: return
      if kwargs.get("shell", False):
          args = ' '.join(args)
          log.warning(...)
      if confirm and not click.confirm(...):
          return
      ...
  \<close>
  \<open>str_args\<close> is line 124: \<open>flatten(args)\<close> receives the tuple \<open>args\<close> as its one item.
\<close>

definition str_args :: "platform \<Rightarrow> pyval list \<Rightarrow> string list" where
  "str_args P args =
     map (py_str (str_seq P)) (flatten [PSeq KTuple args] default_block default_unpack)"

definition join_spaces :: "string list \<Rightarrow> string" where
  "join_spaces xs = (case xs of [] \<Rightarrow> [] | y # ys \<Rightarrow> foldl (\<lambda>acc z. acc @ '' '' @ z) y ys)"

definition shell :: "platform \<Rightarrow> pyval list \<Rightarrow> flags \<Rightarrow> kwargs \<Rightarrow> world \<Rightarrow> (exn + result) \<times> world" where
  "shell P args f kw w =
     (if output f \<and> Popen f then
        (Inl ValueError,
         emit (LogError ''Cannot use (output=True) and (Popen=True) at the same time'') w)
      else
        let a = str_args P args in
        (case binary_check P a w of
           (Inl e, w1) \<Rightarrow> (Inl e, w1)
         | (Inr u, w1) \<Rightarrow>
             let w2 = emit (LogCommand (if skip f then Skip else Info)
                              (if skip f then ''Skipping'' else ''Running'')
                              a (the_cwd kw w1) (echo f)) w1 in
             if skip f then (Inr RNone, w2)
             else if shell_string kw then
               confirmed P (Line (join_spaces a)) f kw
                 (emit (LogWarning (shell_warning (confirm f))) w2)
             else confirmed P (Argv a) f kw w2))"


section \<open>The buffered stdin writer: StdinWrapper\<close>

text \<open>
  \<^verbatim>\<open>
  class StdinWrapper:
      _process: subprocess.Popen
      _queue: Queue = Factory(factory=lambda: Queue(maxsize=10))
      _loop: bool = True
      _stdin: Any = None
      def __attrs_post_init__(self):
          Thread(target=self.worker, daemon=True).start()
      def write(self, data):
          self._queue.put(data)
      def worker(self):
          while self._loop:
              self._stdin.write(self._queue.get())
              self._queue.task_done()
      def close(self):
          self._queue.join()
          self._stdin.close()
          self._loop = False
          while self._process.poll() is None:
              time.sleep(0.01)
  \<close>
  The object is shared by the worker thread, the thread that calls \<open>close\<close> and the
  producers. The model is the interleaving of their steps: each call on the queue, the
  pipe, the flag and the process is one step. A record holds the object's fields as the
  steps leave them and where the worker and the closing thread stand.

  The worker stands at the test of \<open>while self._loop\<close>, in \<open>self._queue.get()\<close>, in
  \<open>self._stdin.write\<close> with the chunk it took, before \<open>self._queue.task_done()\<close>,
  after the loop, or it died of an exception.
\<close>

type_synonym chunk = string

datatype worker_pc = WLoop | WGet | WWrite chunk | WTaskDone | WExited | WCrashed

text \<open>
  The closing thread has not called \<open>close\<close>, or it stands in \<open>self._queue.join()\<close>,
  before \<open>self._stdin.close()\<close>, before \<open>self._loop = False\<close>, in the polling loop, or
  \<open>close\<close> has returned, or it ended with the exception of \<open>self._stdin.close()\<close>.
\<close>

datatype close_pc = CNotCalled | CJoin | CStdinClose | CClearLoop | CPoll | CReturned | CRaised

text \<open>
  \<open>queue\<close> and \<open>unfinished\<close> are the items and the \<open>unfinished_tasks\<close> counter of
  \<open>_queue\<close>; \<open>written\<close> is what \<open>_stdin.write\<close> has been given, in order;
  \<open>exited\<close> says that \<open>_process.poll()\<close> is no longer \<open>None\<close>. Two fields record
  history and are read by no step: \<open>enqueued\<close>, every chunk a \<open>write\<close> has put, and
  \<open>at_close\<close>, the value of \<open>enqueued\<close> when \<open>close\<close> was called.
\<close>

record wrapper =
  queue :: "chunk list"
  unfinished :: nat
  loop :: bool
  written :: "chunk list"
  stdin_closed :: bool
  exited :: bool
  worker_at :: worker_pc
  close_at :: close_pc
  enqueued :: "chunk list"
  at_close :: "chunk list"

definition maxsize :: nat where
  "maxsize = 10"

text \<open>
  The object as \<open>shell\<close> builds it for a process started with \<open>stdin=PIPE\<close>: the
  thread is started, nothing is queued, the pipe is open. (Without a pipe \<open>_stdin\<close> is
  \<open>None\<close> and the worker dies at once of \<open>AttributeError\<close>; that object is not
  followed here.)
\<close>

definition new_wrapper :: wrapper where
  "new_wrapper = \<lparr>queue = [], unfinished = 0, loop = True, written = [], stdin_closed = False,
     exited = False, worker_at = WLoop, close_at = CNotCalled, enqueued = [], at_close = []\<rparr>"

text \<open>
  \<open>write\<close>: \<open>Queue.put\<close> blocks (\<open>None\<close>: no step) while the queue holds \<open>maxsize\<close>
  items; otherwise it appends the item, counts it as unfinished and returns. It reads
  neither \<open>_loop\<close> nor the state of the pipe, and raises nothing.
\<close>

definition "write" :: "chunk \<Rightarrow> wrapper \<Rightarrow> wrapper option" where
  "write data s =
     (if length (queue s) < maxsize
      then Some (s\<lparr>queue := queue s @ [data], unfinished := Suc (unfinished s),
                   enqueued := enqueued s @ [data]\<rparr>)
      else None)"

text \<open>
  One step of \<open>worker\<close>. \<open>Queue.get\<close> blocks on the empty queue; writing to a closed
  file raises \<open>ValueError\<close>, and so does \<open>task_done\<close> called more often than \<open>put\<close>:
  an exception ends the thread.
\<close>

definition worker :: "wrapper \<Rightarrow> wrapper option" where
  "worker s =
     (case worker_at s of
        WLoop \<Rightarrow> Some (s\<lparr>worker_at := (if loop s then WGet else WExited)\<rparr>)
      | WGet \<Rightarrow>
          (case queue s of
             [] \<Rightarrow> None
           | c # q \<Rightarrow> Some (s\<lparr>queue := q, worker_at := WWrite c\<rparr>))
      | WWrite c \<Rightarrow>
          Some (if stdin_closed s then s\<lparr>worker_at := WCrashed\<rparr>
                else s\<lparr>written := written s @ [c], worker_at := WTaskDone\<rparr>)
      | WTaskDone \<Rightarrow>
          Some (if unfinished s = 0 then s\<lparr>worker_at := WCrashed\<rparr>
                else s\<lparr>unfinished := unfinished s - 1, worker_at := WLoop\<rparr>)
      | WExited \<Rightarrow> None
      | WCrashed \<Rightarrow> None)"

text \<open>
  One step of \<open>close\<close>. \<open>Queue.join\<close> blocks until \<open>unfinished_tasks\<close> is zero; the
  polling loop sleeps and polls again until the process has exited.
\<close>

definition close :: "wrapper \<Rightarrow> wrapper option" where
  "close s =
     (case close_at s of
        CNotCalled \<Rightarrow> None
      | CJoin \<Rightarrow> if unfinished s = 0 then Some (s\<lparr>close_at := CStdinClose\<rparr>) else None
      | CStdinClose \<Rightarrow> Some (s\<lparr>stdin_closed := True, close_at := CClearLoop\<rparr>)
      | CClearLoop \<Rightarrow> Some (s\<lparr>loop := False, close_at := CPoll\<rparr>)
      | CPoll \<Rightarrow> Some (if exited s then s\<lparr>close_at := CReturned\<rparr> else s)
      | CReturned \<Rightarrow> None
      | CRaised \<Rightarrow> None)"

text \<open>
  What can happen next: a producer calls \<open>write\<close>; a thread calls \<open>close\<close>; the
  worker or the closing thread takes its next step; the pipe fails under the worker's
  \<open>write\<close> or under \<open>_stdin.close()\<close> (\<open>BrokenPipeError\<close>); the process exits. When
  \<open>_stdin.close()\<close> fails in flushing, the file is closed all the same and the exception
  ends \<open>close\<close> before the flag is cleared. One call of \<open>close\<close> is followed: a second
  call, while the first runs or after it, has no step here.
\<close>

datatype action = Write chunk | CallClose | Worker | Closer | WriteError | CloseError | ProcessExits

definition step :: "action \<Rightarrow> wrapper \<Rightarrow> wrapper option" where
  "step a s =
     (case a of
        Write data \<Rightarrow> write data s
      | CallClose \<Rightarrow>
          if close_at s = CNotCalled then Some (s\<lparr>close_at := CJoin, at_close := enqueued s\<rparr>)
          else None
      | Worker \<Rightarrow> worker s
      | Closer \<Rightarrow> close s
      | WriteError \<Rightarrow>
          (case worker_at s of WWrite c \<Rightarrow> Some (s\<lparr>worker_at := WCrashed\<rparr>) | _ \<Rightarrow> None)
      | CloseError \<Rightarrow>
          if close_at s = CStdinClose
          then Some (s\<lparr>stdin_closed := True, close_at := CRaised\<rparr>)
          else None
      | ProcessExits \<Rightarrow> Some (s\<lparr>exited := True\<rparr>))"

text \<open>A schedule is a list of actions; it runs when each action can take its step.\<close>

fun run :: "action list \<Rightarrow> wrapper \<Rightarrow> wrapper option" where
  "run [] s = Some s"
| "run (a # as) s = (case step a s of None \<Rightarrow> None | Some s' \<Rightarrow> run as s')"

text \<open>
  The number of \<open>task_done\<close> calls so far: \<open>put\<close> adds one to \<open>unfinished_tasks\<close>
  and \<open>task_done\<close> takes one away.
\<close>

definition acknowledged :: "wrapper \<Rightarrow> nat" where
  "acknowledged s = length (enqueued s) - unfinished s"

text \<open>\<open>join\<close> has returned in the thread that called \<open>close\<close>.\<close>

definition drained :: "wrapper \<Rightarrow> bool" where
  "drained s = (close_at s = CStdinClose \<or> close_at s = CClearLoop \<or> close_at s = CPoll
     \<or> close_at s = CReturned \<or> close_at s = CRaised)"

section \<open>What the properties speak of\<close>

subsection \<open>Flattening\<close>

text \<open>A value that the default \<open>block\<close> lets through: neither \<open>None\<close> nor \<open>""\<close>.\<close>

definition kept :: "pyval \<Rightarrow> bool" where
  "kept v = (v \<noteq> PNone \<and> v \<noteq> PStr '''')"

subsection \<open>The dispatcher\<close>

text \<open>An event that is a call of a process-creation primitive, and the call it made.\<close>

definition is_create :: "event \<Rightarrow> bool" where
  "is_create e =
     (case e of CheckOutput c \<Rightarrow> True | PopenCall c \<Rightarrow> True | RunCall c \<Rightarrow> True | _ \<Rightarrow> False)"

definition call_of :: "event \<Rightarrow> call option" where
  "call_of e =
     (case e of CheckOutput c \<Rightarrow> Some c | PopenCall c \<Rightarrow> Some c | RunCall c \<Rightarrow> Some c
      | _ \<Rightarrow> None)"

text \<open>The events of one call of \<open>shell\<close>: what it added to the trace.\<close>

definition events_of :: "platform \<Rightarrow> pyval list \<Rightarrow> flags \<Rightarrow> kwargs \<Rightarrow> world \<Rightarrow> event list" where
  "events_of P args f kw w = drop (length (trace w)) (trace (snd (shell P args f kw w)))"

text \<open>
  A later world against an earlier one: the trace has grown by \<open>es\<close>; the environment,
  the platform name and the working directory are the same.
\<close>

definition grows :: "world \<Rightarrow> world \<Rightarrow> event list \<Rightarrow> bool" where
  "grows w w' es = (trace w' = trace w @ es \<and> environ w' = environ w
      \<and> os_name w' = os_name w \<and> path_cwd w' = path_cwd w)"

text \<open>
  The outcome of an executed command has the shape of its mode: text for \<open>output\<close>,
  the process for \<open>Popen\<close>, the completed process otherwise (or an exception).
\<close>

definition mode_result :: "flags \<Rightarrow> exn + result \<Rightarrow> bool" where
  "mode_result f r =
     (case r of
        Inl e \<Rightarrow> True
      | Inr v \<Rightarrow>
          (if output f then (\<exists>t. v = RText t)
           else if Popen f then (\<exists>pid. v = RProcess pid (threaded_stdin f))
           else (\<exists>c rc. v = RCompleted c rc)))"

text \<open>Every primitive call among \<open>es\<close> got the command \<open>a\<close> and the environment \<open>e\<close>.\<close>

definition made_by :: "cmd \<Rightarrow> (string \<rightharpoonup> string) \<Rightarrow> event list \<Rightarrow> bool" where
  "made_by a e es = (\<forall>ev\<in>set es. \<forall>c. call_of ev = Some c \<longrightarrow> c_env c = e \<and> c_args c = a)"

definition env_only :: "(string \<rightharpoonup> string) \<Rightarrow> event list \<Rightarrow> bool" where
  "env_only e es = (\<forall>ev\<in>set es. \<forall>c. call_of ev = Some c \<longrightarrow> c_env c = e)"

text \<open>
  A concrete setting for the examples: a POSIX host in \<open>/\<close> whose user answers no, and a
  search path that holds \<open>echo\<close> and nothing else. A command other than
  \<open>echo hi\<close> or the empty command line fails to start, as the operating system lets a
  missing program fail.
\<close>

definition w0 :: world where
  "w0 = \<lparr>environ = [''PATH'' \<mapsto> ''/bin''], os_name = ''posix'', path_cwd = ''/'',
     answers = [False], trace = []\<rparr>"

definition unix :: platform where
  "unix = \<lparr>shutil_which = (\<lambda>n. if n = ''echo'' then Some ''/bin/echo'' else None),
     sp_check_output = (\<lambda>c. Inr ''hi''),
     decode_utf8 = (\<lambda>b. Some b),
     sp_Popen = (\<lambda>c. Inr 42),
     sp_run = (\<lambda>c. if c_args c = Argv [''echo'', ''hi''] \<or> c_args c = Line [] then Inr 0
                     else Inl FileNotFoundError),
     str_seq = (\<lambda>k xs. [])\<rparr>"

subsection \<open>The writer\<close>

text \<open>
  The worker holds an item it has taken and not yet acknowledged (a worker that died
  holds its item for ever); the chunk it is about to write is in flight.
\<close>

definition holding :: "worker_pc \<Rightarrow> nat" where
  "holding pc = (case pc of WWrite c \<Rightarrow> 1 | WTaskDone \<Rightarrow> 1 | WCrashed \<Rightarrow> 1 | _ \<Rightarrow> 0)"

definition in_flight :: "worker_pc \<Rightarrow> chunk list" where
  "in_flight pc = (case pc of WWrite c \<Rightarrow> [c] | _ \<Rightarrow> [])"

text \<open>
  The queue's counter counts the queued items and the one the worker holds, and while the
  worker lives the chunks put so far are those written, the one in flight and those queued,
  in this order.
\<close>

definition queue_inv :: "wrapper \<Rightarrow> bool" where
  "queue_inv s = (unfinished s = length (queue s) + holding (worker_at s)
     \<and> (worker_at s \<noteq> WCrashed \<longrightarrow> enqueued s = written s @ in_flight (worker_at s) @ queue s))"

definition snapshot_inv :: "wrapper \<Rightarrow> bool" where
  "snapshot_inv s = (close_at s \<noteq> CNotCalled \<longrightarrow> prefix (at_close s) (enqueued s))"

text \<open>
  The order of \<open>close\<close>, as what holds in a state: once \<open>join\<close> has returned, every
  chunk put before \<open>close\<close> was called has been written and acknowledged; the pipe is
  closed exactly when \<open>close\<close> stands past \<open>_stdin.close()\<close> or ended in it; the flag is cleared
  exactly when \<open>close\<close> stands past \<open>self._loop = False\<close>; and \<open>close\<close> has returned
  only if the process has exited.
\<close>

definition close_order :: "wrapper \<Rightarrow> bool" where
  "close_order s =
     ((drained s \<longrightarrow> prefix (at_close s) (written s) \<and> length (at_close s) \<le> acknowledged s)
      \<and> (stdin_closed s \<longleftrightarrow> close_at s = CClearLoop \<or> close_at s = CPoll \<or> close_at s = CReturned
            \<or> close_at s = CRaised)
      \<and> (\<not> loop s \<longleftrightarrow> close_at s = CPoll \<or> close_at s = CReturned)
      \<and> (close_at s = CReturned \<longrightarrow> exited s))"

text \<open>The worker stands past the test of \<open>while self._loop\<close>, or it died.\<close>

definition past_test :: "worker_pc \<Rightarrow> bool" where
  "past_test pc = (case pc of WGet \<Rightarrow> True | WWrite c \<Rightarrow> True | WCrashed \<Rightarrow> True | _ \<Rightarrow> False)"

text \<open>
  A run of \<open>write("a"); write("b"); close()\<close>: the worker writes and acknowledges both
  chunks, tests the flag, which is still set, and waits in \<open>get\<close>; then \<open>join\<close>
  returns, the pipe is closed, the flag is cleared, the process exits and \<open>close\<close>
  returns. \<open>closed_wrapper\<close> is the object then.
\<close>

definition close_schedule :: "action list" where
  "close_schedule =
     [Write ''a'', Write ''b'', CallClose,
      Worker, Worker, Worker, Worker,
      Worker, Worker, Worker, Worker,
      Worker,
      Closer, Closer, Closer, ProcessExits, Closer]"

definition closed_wrapper :: wrapper where
  "closed_wrapper = \<lparr>queue = [], unfinished = 0, loop = False, written = [''a'', ''b''],
     stdin_closed = True, exited = True, worker_at = WGet, close_at = CReturned,
     enqueued = [''a'', ''b''], at_close = [''a'', ''b'']\<rparr>"

text \<open>
  Writes after \<open>close\<close> has returned: the worker takes the first chunk and dies writing
  it to the closed pipe; ten more fill the queue. \<open>stuck_wrapper\<close> is the object then.
\<close>

definition late_writes :: "action list" where
  "late_writes = [Write ''c'', Worker, Worker, Write ''1'', Write ''2'', Write ''3'', Write ''4'',
     Write ''5'', Write ''6'', Write ''7'', Write ''8'', Write ''9'', Write ''10'']"

definition stuck_wrapper :: wrapper where
  "stuck_wrapper = \<lparr>queue = [''1'', ''2'', ''3'', ''4'', ''5'', ''6'', ''7'', ''8'', ''9'', ''10''],
     unfinished = 11, loop = False, written = [''a'', ''b''],
     stdin_closed = True, exited = True, worker_at = WCrashed, close_at = CReturned,
     enqueued = [''a'', ''b'', ''c'', ''1'', ''2'', ''3'', ''4'', ''5'', ''6'', ''7'', ''8'', ''9'', ''10''],
     at_close = [''a'', ''b'']\<rparr>"

section \<open>Properties of flatten\<close>

lemma py_in_default_block: "py_in v default_block \<longleftrightarrow> v = PNone \<or> v = PStr ''''"
  by (cases v) (auto simp: py_in_def default_block_def)

lemma kind_in_default_unpack: "k \<in> set default_unpack"
  by (cases k) (simp_all add: default_unpack_def)

lemma default_block_nonempty: "default_block \<noteq> []"
  by (simp add: default_block_def)

lemma flatten_inner_leaves:
  "flatten_inner default_block default_unpack xs = filter kept (leaves xs)"
  "kept x \<Longrightarrow> flatten_item default_block default_unpack x = filter kept (leaves_item x)"
proof (induction xs and x rule: leaves_leaves_item.induct)
  case (2 x xs)
  then show ?case
    by (cases x) (auto simp: py_in_default_block default_block_nonempty kept_def[abs_def])
qed (auto simp: kind_in_default_unpack kept_def[abs_def])

lemma leaves_scalars:
  "\<not> list_ex is_seq (leaves xs)" "\<not> list_ex is_seq (leaves_item x)"
  by (induction xs and x rule: leaves_leaves_item.induct) (simp_all add: is_seq_def)

lemma leaves_flat: "\<not> list_ex is_seq xs \<Longrightarrow> leaves xs = xs"
proof (induction xs)
  case (Cons x xs)
  then show ?case by (cases x) (simp_all add: is_seq_def)
qed simp

lemma str_nat_nonempty: "str_nat n \<noteq> []"
  by (subst str_nat.simps) simp

lemma py_str_nonempty: "kept v \<Longrightarrow> \<not> is_seq v \<Longrightarrow> py_str r v \<noteq> []"
  by (cases v) (simp_all add: kept_def is_seq_def str_int_def str_nat_nonempty)

lemma str_args_leaves: "str_args P args = map (py_str (str_seq P)) (filter kept (leaves args))"
  by (simp add: str_args_def flatten_def flatten_inner_leaves default_block_nonempty
      py_in_default_block kind_in_default_unpack)

text \<open>
  Claim C7. With the default \<open>block\<close> and \<open>unpack\<close>, the output of \<open>flatten\<close> holds
  neither \<open>None\<close> nor the empty string, and it is the input's items, read from left to
  right with every container opened, without the blocked ones: for a flat input, the
  input itself without its \<open>None\<close> and \<open>""\<close> items, in the same order. The strings that
  \<open>shell\<close> makes of them (line 124) are never empty either.
\<close>

theorem flatten_drops_blocked_keeps_order:
  "PNone \<notin> set (flatten items default_block default_unpack)
   \<and> PStr '''' \<notin> set (flatten items default_block default_unpack)
   \<and> flatten items default_block default_unpack = filter kept (leaves items)
   \<and> (\<not> list_ex is_seq items \<longrightarrow> flatten items default_block default_unpack = filter kept items)
   \<and> [] \<notin> set (str_args P items)"
proof -
  have f: "flatten items default_block default_unpack = filter kept (leaves items)"
    by (simp add: flatten_def flatten_inner_leaves)
  have "[] \<notin> set (str_args P items)"
  proof
    assume "[] \<in> set (str_args P items)"
    then obtain v where v: "v \<in> set (leaves items)" "kept v" "py_str (str_seq P) v = []"
      unfolding str_args_leaves by auto
    from v(1) leaves_scalars(1) [of items] have "\<not> is_seq v" by (simp add: list_ex_iff)
    from py_str_nonempty [OF v(2) this] v(3) show False by simp
  qed
  with f show ?thesis by (auto simp: kept_def leaves_flat)
qed

theorem flatten_drops_blocked_keeps_order_witness:
  "flatten [PStr ''a'', PNone, PInt 3, PStr '''', PStr ''b''] default_block default_unpack
     = [PStr ''a'', PInt 3, PStr ''b'']
   \<and> flatten [PStr ''a'', PSeq KList [PNone, PSeq KTuple [PStr '''', PBool False], PInt (-12)],
        PStr ''b''] default_block default_unpack
     = [PStr ''a'', PBool False, PInt (-12), PStr ''b'']
   \<and> str_args unix [PStr ''a'', PSeq KList [PNone, PSeq KTuple [PStr '''', PBool False], PInt (-12)],
        PStr ''b'']
     = [''a'', ''False'', ''-12'', ''b'']"
  using flatten_drops_blocked_keeps_order
    [of "[PStr ''a'', PNone, PInt 3, PStr '''', PStr ''b'']" unix]
  by (simp add: flatten_def default_block_def default_unpack_def py_in_def str_args_def
       str_int_def str_nat.simps digit_char_def kept_def is_seq_def)

text \<open>
  Claim C8, as stated, fails: the empty string is a string, and \<open>flatten\<close> drops it.
  \<open>flatten(["a", "", "b"])\<close> is \<open>["a", "b"]\<close>.
\<close>

theorem flatten_flat_strings_counterexample:
  "flatten [PSeq KList [PStr ''a'', PStr '''', PStr ''b'']] default_block default_unpack
     = [PStr ''a'', PStr ''b'']
   \<and> flatten [PSeq KList [PStr ''a'', PStr '''', PStr ''b'']] default_block default_unpack
     \<noteq> [PStr ''a'', PStr '''', PStr ''b'']"
  by (simp add: flatten_def default_block_def default_unpack_def py_in_def)

text \<open>
  Claim C8, amended. For every already-flat sequence of strings none of which is empty,
  \<open>flatten\<close> yields the same sequence unchanged, whether the strings are passed one by
  one or as one container, and \<open>shell\<close> gets them back as its argument vector.
\<close>

theorem flatten_flat_nonempty_strings:
  "[] \<notin> set ss \<Longrightarrow>
     flatten (map PStr ss) default_block default_unpack = map PStr ss
     \<and> flatten [PSeq k (map PStr ss)] default_block default_unpack = map PStr ss
     \<and> str_args P (map PStr ss) = ss"
proof -
  assume a: "[] \<notin> set ss"
  have l: "leaves (map PStr ss) = map PStr ss" by (induction ss) simp_all
  have k: "filter kept (map PStr ss) = map PStr ss"
    using a by (induction ss) (auto simp: kept_def)
  have m: "map (py_str (str_seq P)) (map PStr ss) = ss" by (induction ss) simp_all
  show ?thesis
    by (simp add: flatten_def flatten_inner_leaves l k str_args_leaves m comp_def
        default_block_nonempty py_in_default_block kind_in_default_unpack)
qed

theorem flatten_flat_nonempty_strings_witness:
  "[] \<notin> set [''echo'', ''hi'']
   \<and> flatten [PStr ''echo'', PStr ''hi''] default_block default_unpack = [PStr ''echo'', PStr ''hi'']
   \<and> flatten [PSeq KList [PStr ''echo'', PStr ''hi'']] default_block default_unpack
       = [PStr ''echo'', PStr ''hi'']
   \<and> str_args unix [PStr ''echo'', PStr ''hi''] = [''echo'', ''hi'']"
  using flatten_flat_nonempty_strings [of "[''echo'', ''hi'']" KList unix]
  by simp

section \<open>Properties of shell\<close>

lemma shell_both:
  "output f \<and> Popen f \<Longrightarrow> shell P args f kw w =
     (Inl ValueError, emit (LogError ''Cannot use (output=True) and (Popen=True) at the same time'') w)"
  by (simp add: shell_def)

lemma binary_check_passes: "binary_check P a w = (Inr (), w)"
  by (simp add: binary_check_def shell_is_true_def)

lemma shell_unfold:
  "\<not> (output f \<and> Popen f) \<Longrightarrow> shell P args f kw w =
     (let a = str_args P args;
          w2 = emit (LogCommand (if skip f then Skip else Info)
                              (if skip f then ''Skipping'' else ''Running'')
                              a (the_cwd kw w) (echo f)) w in
      if skip f then (Inr RNone, w2)
      else if shell_string kw then
        confirmed P (Line (join_spaces a)) f kw (emit (LogWarning (shell_warning (confirm f))) w2)
      else confirmed P (Argv a) f kw w2)"
  by (auto simp add: shell_def binary_check_passes Let_def)

lemma grows_emit: "grows w (emit e w) [e]"
  by (simp add: grows_def emit_def)

lemma grows_refl: "grows w w []"
  by (simp add: grows_def)

lemma grows_trans: "grows w w1 es \<Longrightarrow> grows w1 w2 es' \<Longrightarrow> grows w w2 (es @ es')"
  by (simp add: grows_def)

lemma dispatch_grows:
  "\<exists>es. grows w (snd (dispatch P f c w)) es \<and> (\<exists>e\<in>set es. is_create e)
      \<and> (\<forall>e\<in>set es. \<forall>c'. call_of e = Some c' \<longrightarrow> c' = c)
      \<and> mode_result f (fst (dispatch P f c w))"
  unfolding dispatch_def grows_def mode_result_def
  by (auto simp: emit_def is_create_def call_of_def split: sum.splits option.splits)

lemma merged_env_cong: "environ w1 = environ w \<Longrightarrow> merged_env w1 f = merged_env w f"
  by (simp add: merged_env_def)

lemma mode_result_not_none: "mode_result f (Inr r) \<Longrightarrow> r \<noteq> RNone"
  by (auto simp: mode_result_def split: if_splits)

lemma made_by_Cons:
  "made_by a e (x # es) =
     ((\<forall>c. call_of x = Some c \<longrightarrow> c_env c = e \<and> c_args c = a) \<and> made_by a e es)"
  by (auto simp: made_by_def)

lemma call_of_log [simp]:
  "call_of (LogMinor m) = None" "call_of (LogWarning m) = None" "call_of (LogError m) = None"
  "call_of (LogCommand l v xs d b) = None" "call_of (Confirm y) = None"
  by (simp_all add: call_of_def)

lemma is_create_log [simp]:
  "\<not> is_create (LogMinor m)" "\<not> is_create (LogWarning m)" "\<not> is_create (LogError m)"
  "\<not> is_create (LogCommand l v xs d b)" "\<not> is_create (Confirm y)"
  by (simp_all add: is_create_def)

lemma made_by_Nil [simp]: "made_by a e []"
  by (simp add: made_by_def)

lemma dispatch_made_by:
  "\<exists>es. grows w (snd (dispatch P f c w)) es \<and> (\<exists>e\<in>set es. is_create e)
      \<and> made_by (c_args c) (c_env c) es
      \<and> mode_result f (fst (dispatch P f c w))"
  using dispatch_grows [of w P f c] unfolding made_by_def by blast

lemma launch_grows:
  "\<exists>es. grows w (snd (launch P a f kw w)) es \<and> (\<exists>e\<in>set es. is_create e)
      \<and> made_by a (merged_env w f) es
      \<and> mode_result f (fst (launch P a f kw w))"
proof (cases "os_name w = ''nt'' \<and> kw_preexec_fn kw \<noteq> None")
  case False
  then have "launch P a f kw w = dispatch P f \<lparr>c_args = a, c_kwargs = kw, c_env = merged_env w f\<rparr> w"
    by (auto simp: launch_def Let_def)
  then show ?thesis
    using dispatch_made_by [of w P f "\<lparr>c_args = a, c_kwargs = kw, c_env = merged_env w f\<rparr>"] by simp
next
  case True
  define w1 where
    "w1 = emit (LogMinor ''shell(preexec_fn=...) is not supported on Windows, ignoring..'') w"
  define c where "c = \<lparr>c_args = a, c_kwargs = kw\<lparr>kw_preexec_fn := None\<rparr>, c_env = merged_env w f\<rparr>"
  from True have eq: "launch P a f kw w = dispatch P f c w1"
    by (auto simp: launch_def Let_def w1_def c_def)
  obtain es where es: "grows w1 (snd (dispatch P f c w1)) es" "\<exists>e\<in>set es. is_create e"
    "made_by (c_args c) (c_env c) es" "mode_result f (fst (dispatch P f c w1))"
    using dispatch_made_by [of w1 P f c] by blast
  have "grows w w1 [LogMinor ''shell(preexec_fn=...) is not supported on Windows, ignoring..'']"
    unfolding w1_def by (rule grows_emit)
  from grows_trans [OF this es(1)] es(2,3,4) show ?thesis
    unfolding eq
    by (intro exI [of _ "[LogMinor ''shell(preexec_fn=...) is not supported on Windows, ignoring..''] @ es"])
      (auto simp: made_by_Cons c_def)
qed

lemma click_confirm_cases:
  "click_confirm w = (Inl Abort, w) \<and> answers w = []
   \<or> (\<exists>y rest. answers w = y # rest
         \<and> click_confirm w = (Inr y, emit (Confirm y) (w\<lparr>answers := rest\<rparr>)))"
  by (cases "answers w") (simp_all add: click_confirm_def)

lemma grows_answer: "grows w (emit (Confirm y) (w\<lparr>answers := rest\<rparr>)) [Confirm y]"
  by (simp add: grows_def emit_def)

lemma confirmed_grows:
  "\<exists>es. grows w (snd (confirmed P a f kw w)) es
      \<and> made_by a (merged_env w f) es
      \<and> ((\<exists>e\<in>set es. is_create e) \<longrightarrow> mode_result f (fst (confirmed P a f kw w)))
      \<and> (fst (confirmed P a f kw w) = Inr RNone \<longrightarrow> \<not> (\<exists>e\<in>set es. is_create e))"
proof (cases "confirm f")
  case False
  then have eq: "confirmed P a f kw w = launch P a f kw w" by (simp add: confirmed_def)
  show ?thesis unfolding eq using launch_grows [of w P a f kw]
    by (metis mode_result_not_none)
next
  case True
  from click_confirm_cases [of w] show ?thesis
  proof (elim disjE conjE exE)
    assume "click_confirm w = (Inl Abort, w)"
    with True have "confirmed P a f kw w = (Inl Abort, w)" by (simp add: confirmed_def)
    then show ?thesis by (intro exI [of _ "[]"]) (simp add: grows_refl)
  next
    fix y rest
    assume a: "answers w = y # rest"
      and c: "click_confirm w = (Inr y, emit (Confirm y) (w\<lparr>answers := rest\<rparr>))"
    define w1 where "w1 = emit (Confirm y) (w\<lparr>answers := rest\<rparr>)"
    have g1: "grows w w1 [Confirm y]" unfolding w1_def by (rule grows_answer)
    show ?thesis
    proof (cases y)
      case False
      with True c have "confirmed P a f kw w = (Inr RNone, w1)"
        by (simp add: confirmed_def w1_def)
      then show ?thesis using g1
        by (intro exI [of _ "[Confirm y]"]) (simp add: made_by_Cons)
    next
      case yes: True
      with True c have eq: "confirmed P a f kw w = launch P a f kw w1"
        by (simp add: confirmed_def w1_def)
      obtain es where es: "grows w1 (snd (launch P a f kw w1)) es" "\<exists>e\<in>set es. is_create e"
        "made_by a (merged_env w1 f) es" "mode_result f (fst (launch P a f kw w1))"
        using launch_grows [of w1 P a f kw] by blast
      have m: "merged_env w1 f = merged_env w f"
        using g1 by (intro merged_env_cong) (simp add: grows_def)
      from grows_trans [OF g1 es(1)] es(2,3,4) m show ?thesis
        unfolding eq
        by (intro exI [of _ "[Confirm y] @ es"]) (auto simp: made_by_Cons dest: mode_result_not_none)
    qed
  qed
qed

lemma made_by_env_only: "made_by a e es \<Longrightarrow> env_only e es"
  by (simp add: made_by_def env_only_def)

lemma env_only_Cons:
  "env_only e (x # es) = ((\<forall>c. call_of x = Some c \<longrightarrow> c_env c = e) \<and> env_only e es)"
  by (auto simp: env_only_def)

lemma env_only_Nil [simp]: "env_only e []"
  by (simp add: env_only_def)

lemma shell_grows:
  "\<exists>es. grows w (snd (shell P args f kw w)) es
      \<and> env_only (merged_env w f) es
      \<and> ((\<exists>e\<in>set es. is_create e) \<longrightarrow>
            \<not> skip f \<and> \<not> (output f \<and> Popen f) \<and> mode_result f (fst (shell P args f kw w)))
      \<and> (fst (shell P args f kw w) = Inr RNone \<longrightarrow> \<not> (\<exists>e\<in>set es. is_create e))"
proof (cases "output f \<and> Popen f")
  case True
  show ?thesis unfolding shell_both [OF True]
    by (intro exI [of _ "[LogError ''Cannot use (output=True) and (Popen=True) at the same time'']"])
      (simp add: grows_emit env_only_Cons)
next
  case nb: False
  define a where "a = str_args P args"
  define l where "l = LogCommand (if skip f then Skip else Info)
      (if skip f then ''Skipping'' else ''Running'') a (the_cwd kw w) (echo f)"
  define w2 where "w2 = emit l w"
  have g2: "grows w w2 [l]" unfolding w2_def by (rule grows_emit)
  have l: "\<not> is_create l" "call_of l = None" by (simp_all add: l_def)
  show ?thesis
  proof (cases "skip f")
    case True
    with nb have "shell P args f kw w = (Inr RNone, w2)"
      by (simp add: shell_unfold Let_def w2_def l_def a_def)
    then show ?thesis using g2 l
      by (intro exI [of _ "[l]"]) (simp add: env_only_Cons)
  next
    case ns: False
    define c where "c = (if shell_string kw then Line (join_spaces a) else Argv a)"
    define w3 where
      "w3 = (if shell_string kw then emit (LogWarning (shell_warning (confirm f))) w2 else w2)"
    define pre where
      "pre = (if shell_string kw then [l, LogWarning (shell_warning (confirm f))] else [l])"
    have eq: "shell P args f kw w = confirmed P c f kw w3"
      using nb ns by (simp add: shell_unfold Let_def w2_def l_def a_def c_def w3_def)
    have g3: "grows w w3 pre"
      using g2 grows_trans [OF g2 grows_emit [of w2 "LogWarning (shell_warning (confirm f))"]]
      by (simp add: w3_def pre_def)
    have pre: "env_only (merged_env w f) pre" "\<forall>e\<in>set pre. \<not> is_create e"
      using l by (simp_all add: pre_def env_only_Cons)
    obtain es where es: "grows w3 (snd (confirmed P c f kw w3)) es"
      "made_by c (merged_env w3 f) es"
      "(\<exists>e\<in>set es. is_create e) \<longrightarrow> mode_result f (fst (confirmed P c f kw w3))"
      "fst (confirmed P c f kw w3) = Inr RNone \<longrightarrow> \<not> (\<exists>e\<in>set es. is_create e)"
      using confirmed_grows [of w3 P c f kw] by blast
    have m: "merged_env w3 f = merged_env w f"
      using g3 by (intro merged_env_cong) (simp add: grows_def)
    have e1: "env_only (merged_env w f) (pre @ es)"
      using pre(1) made_by_env_only [OF es(2)] unfolding m by (auto simp: env_only_def)
    show ?thesis unfolding eq
      using grows_trans [OF g3 es(1)] e1 es(3,4) pre(2) nb ns
      by (intro exI [of _ "pre @ es"]) auto
  qed
qed

lemma events_of_grows: "grows w (snd (shell P args f kw w)) es \<Longrightarrow> events_of P args f kw w = es"
  by (simp add: events_of_def grows_def)

lemmas shell_eval = shell_def binary_check_def shell_is_true_def str_args_def flatten_def
  default_block_def default_unpack_def py_in_def emit_def the_cwd_def shell_string_def
  shell_warning_def click_confirm_def merged_env_def dispatch_def launch_def confirmed_def
  join_spaces_def default_flags_def no_kwargs_def events_of_def is_create_def call_of_def
  overlay_def Let_def

text \<open>
  Claim C1 does not hold of the code: the test of line 127 is never true, so a binary that
  is not on the search path is not detected. Here \<open>shutil.which\<close> finds nothing for
  \<open>nonexistent_binary_xyz\<close>; with \<open>skip=True\<close> the call returns \<open>None\<close> and raises
  nothing, and in the plain blocking mode the command is logged as running and handed
  to \<open>subprocess.run\<close>: the process-creation primitive is reached.
\<close>

theorem missing_binary_not_detected:
  "shutil_which unix ''nonexistent_binary_xyz'' = None
   \<and> str_args unix [PSeq KList [PStr ''nonexistent_binary_xyz'']] = [''nonexistent_binary_xyz'']
   \<and> \<not> shell_string no_kwargs
   \<and> fst (shell unix [PSeq KList [PStr ''nonexistent_binary_xyz'']]
            (default_flags\<lparr>skip := True\<rparr>) no_kwargs w0) = Inr RNone
   \<and> events_of unix [PSeq KList [PStr ''nonexistent_binary_xyz'']] default_flags no_kwargs w0
       = [LogCommand Info ''Running'' [''nonexistent_binary_xyz''] ''/'' True,
          RunCall \<lparr>c_args = Argv [''nonexistent_binary_xyz''], c_kwargs = no_kwargs,
                   c_env = environ w0\<rparr>]"
  by (simp add: shell_eval unix_def w0_def)

text \<open>
  Claim C4, as stated, fails: \<open>shell\<close> has no test for an empty argument vector.
  \<open>shell(None, "", shell=True, skip=True)\<close> normalizes to the empty vector and returns
  \<open>None\<close>; without \<open>skip\<close> the empty command line reaches \<open>subprocess.run\<close>.
\<close>

theorem empty_vector_counterexample:
  "str_args unix [PNone, PStr ''''] = []
   \<and> fst (shell unix [PNone, PStr ''''] (default_flags\<lparr>skip := True\<rparr>)
            (no_kwargs\<lparr>kw_shell := Some True\<rparr>) w0) = Inr RNone
   \<and> fst (shell unix [PNone, PStr ''''] default_flags (no_kwargs\<lparr>kw_shell := Some True\<rparr>) w0)
        = Inr (RCompleted (Line []) 0)
   \<and> list_ex is_create (events_of unix [PNone, PStr ''''] default_flags
        (no_kwargs\<lparr>kw_shell := Some True\<rparr>) w0)"
  by (simp add: shell_eval unix_def w0_def)

text \<open>
  Claim C4, amended. For an invocation whose fragments normalize to the empty sequence,
  \<open>shell\<close> raises \<open>ValueError\<close>, before any process is touched, when both \<open>output\<close> and
  \<open>Popen\<close> are set. There is no emptiness check: in shell-string mode, and not both
  \<open>output\<close> and \<open>Popen\<close>, it logs the empty vector and returns \<open>None\<close> when \<open>skip\<close> is
  set, and otherwise passes the empty command line on to the confirmation gate and the
  process-creation primitive.
\<close>

theorem empty_vector_not_rejected:
  "str_args P args = [] \<Longrightarrow>
     (output f \<and> Popen f \<longrightarrow>
        fst (shell P args f kw w) = Inl ValueError
        \<and> \<not> (\<exists>e\<in>set (events_of P args f kw w). is_create e))
     \<and> (\<not> (output f \<and> Popen f) \<and> shell_string kw \<longrightarrow>
          shell P args f kw w =
            (if skip f
             then (Inr RNone, emit (LogCommand Skip ''Skipping'' [] (the_cwd kw w) (echo f)) w)
             else confirmed P (Line []) f kw
                    (emit (LogWarning (shell_warning (confirm f)))
                       (emit (LogCommand Info ''Running'' [] (the_cwd kw w) (echo f)) w))))"
  by (auto simp: shell_both shell_unfold Let_def events_of_def emit_def join_spaces_def)

theorem empty_vector_not_rejected_witness:
  "str_args unix [PNone, PSeq KList [PStr '''']] = []
   \<and> fst (shell unix [PNone, PSeq KList [PStr '''']] (default_flags\<lparr>output := True, Popen := True\<rparr>)
        (no_kwargs\<lparr>kw_shell := Some True\<rparr>) w0) = Inl ValueError
   \<and> fst (shell unix [PNone, PSeq KList [PStr '''']] (default_flags\<lparr>skip := True\<rparr>)
        (no_kwargs\<lparr>kw_shell := Some True\<rparr>) w0) = Inr RNone"
  using empty_vector_not_rejected [of unix "[PNone, PSeq KList [PStr '''']]"
      "default_flags\<lparr>output := True, Popen := True\<rparr>" "no_kwargs\<lparr>kw_shell := Some True\<rparr>" w0]
    empty_vector_not_rejected [of unix "[PNone, PSeq KList [PStr '''']]"
      "default_flags\<lparr>skip := True\<rparr>" "no_kwargs\<lparr>kw_shell := Some True\<rparr>" w0]
  by (simp add: shell_eval unix_def w0_def)

text \<open>
  Claim C5. For every call of \<open>shell\<close>, with any overlay \<open>env\<close>: \<open>os.environ\<close> after the
  call is what it was before; and every call of a process-creation primitive that \<open>shell\<close>
  makes is given, as the child's environment, the dictionary \<open>env\<close> that the caller passed
  where it has the key, and the current \<open>os.environ\<close> elsewhere (all of \<open>os.environ\<close>
  when \<open>env\<close> is \<open>None\<close>).
\<close>

theorem environment_overlay_child_only:
  "environ (snd (shell P args f kw w)) = environ w
   \<and> (\<forall>ev\<in>set (events_of P args f kw w). \<forall>c. call_of ev = Some c \<longrightarrow>
         (\<forall>k. c_env c k =
            (case env f of
               None \<Rightarrow> environ w k
             | Some e \<Rightarrow> (case e k of Some v \<Rightarrow> Some v | None \<Rightarrow> environ w k))))"
proof -
  obtain es where es: "grows w (snd (shell P args f kw w)) es" "env_only (merged_env w f) es"
    using shell_grows [of w P args f kw] by blast
  have ev: "events_of P args f kw w = es" using es(1) by (rule events_of_grows)
  have fr: "environ (snd (shell P args f kw w)) = environ w"
    using es(1) by (simp add: grows_def)
  have m: "merged_env w f k =
            (case env f of
               None \<Rightarrow> environ w k
             | Some e \<Rightarrow> (case e k of Some v \<Rightarrow> Some v | None \<Rightarrow> environ w k))" for k
    by (simp add: merged_env_def overlay_def map_add_def split: option.splits)
  have "\<forall>ev\<in>set es. \<forall>c. call_of ev = Some c \<longrightarrow>
         (\<forall>k. c_env c k =
            (case env f of
               None \<Rightarrow> environ w k
             | Some e \<Rightarrow> (case e k of Some v \<Rightarrow> Some v | None \<Rightarrow> environ w k)))"
  proof (intro ballI allI impI)
    fix ev c k
    assume "ev \<in> set es" "call_of ev = Some c"
    with es(2) have "c_env c = merged_env w f" by (simp add: env_only_def)
    then show "c_env c k =
            (case env f of
               None \<Rightarrow> environ w k
             | Some e \<Rightarrow> (case e k of Some v \<Rightarrow> Some v | None \<Rightarrow> environ w k))"
      by (simp only: m)
  qed
  with fr show ?thesis unfolding ev by blast
qed

theorem environment_overlay_child_only_witness:
  "environ (snd (shell unix [PStr ''echo'', PStr ''hi'']
       (default_flags\<lparr>env := Some [''PATH'' \<mapsto> ''/opt'', ''A'' \<mapsto> ''1'']\<rparr>) no_kwargs w0))
     = [''PATH'' \<mapsto> ''/bin'']
   \<and> map (\<lambda>ev. case call_of ev of None \<Rightarrow> []
                | Some c \<Rightarrow> [c_env c ''PATH'', c_env c ''A'', c_env c ''B''])
        (events_of unix [PStr ''echo'', PStr ''hi'']
           (default_flags\<lparr>env := Some [''PATH'' \<mapsto> ''/opt'', ''A'' \<mapsto> ''1'']\<rparr>) no_kwargs w0)
      = [[], [Some ''/opt'', Some ''1'', None]]"
  using environment_overlay_child_only [of unix "[PStr ''echo'', PStr ''hi'']"
      "default_flags\<lparr>env := Some [''PATH'' \<mapsto> ''/opt'', ''A'' \<mapsto> ''1'']\<rparr>" no_kwargs w0]
  by (simp add: shell_eval unix_def w0_def)

text \<open>
  Claim C6. Whenever both \<open>output\<close> and \<open>Popen\<close> are set, whatever the other arguments,
  \<open>shell\<close> raises \<open>ValueError\<close>; all it has done by then is the one call of
  \<open>log.error\<close>, so no process-creation primitive was called.
\<close>

theorem capture_and_spawn_rejected:
  "output f \<and> Popen f \<Longrightarrow>
     fst (shell P args f kw w) = Inl ValueError
     \<and> events_of P args f kw w
         = [LogError ''Cannot use (output=True) and (Popen=True) at the same time'']
     \<and> \<not> (\<exists>e\<in>set (events_of P args f kw w). is_create e)"
  by (simp add: shell_both events_of_def emit_def)

theorem capture_and_spawn_rejected_witness:
  "output (default_flags\<lparr>output := True, Popen := True\<rparr>)
   \<and> Popen (default_flags\<lparr>output := True, Popen := True\<rparr>)
   \<and> fst (shell unix [PStr ''echo'', PStr ''hi'']
        (default_flags\<lparr>output := True, Popen := True\<rparr>) no_kwargs w0) = Inl ValueError
   \<and> events_of unix [PStr ''echo'', PStr ''hi'']
        (default_flags\<lparr>output := True, Popen := True\<rparr>) no_kwargs w0
     = [LogError ''Cannot use (output=True) and (Popen=True) at the same time'']"
  using capture_and_spawn_rejected [of "default_flags\<lparr>output := True, Popen := True\<rparr>" unix
      "[PStr ''echo'', PStr ''hi'']" no_kwargs w0]
  by (simp add: default_flags_def)

text \<open>
  Claim C9, as stated, fails: the test for \<open>output\<close> and \<open>Popen\<close> comes first. With
  \<open>skip\<close>, \<open>output\<close> and \<open>Popen\<close> all set, \<open>shell\<close> raises \<open>ValueError\<close>, and the one
  log line is at the error level.
\<close>

theorem skip_counterexample:
  "shell unix [PStr ''echo'', PStr ''hi'']
      (default_flags\<lparr>skip := True, output := True, Popen := True\<rparr>) no_kwargs w0
     = (Inl ValueError,
        w0\<lparr>trace := [LogError ''Cannot use (output=True) and (Popen=True) at the same time'']\<rparr>)"
  by (simp add: shell_eval unix_def w0_def)

text \<open>
  Claim C9, amended. For every invocation with \<open>skip\<close> set, no process-creation
  primitive is called, whatever the other arguments; and unless both \<open>output\<close> and
  \<open>Popen\<close> are set, the call logs the command once at the skip level and returns
  \<open>None\<close>, leaving everything else as it was.
\<close>

theorem skip_runs_nothing:
  "skip f \<Longrightarrow>
     \<not> (\<exists>e\<in>set (events_of P args f kw w). is_create e)
     \<and> (\<not> (output f \<and> Popen f) \<longrightarrow>
          shell P args f kw w =
            (Inr RNone,
             emit (LogCommand Skip ''Skipping'' (str_args P args) (the_cwd kw w) (echo f)) w))"
proof -
  assume s: "skip f"
  obtain es where es: "grows w (snd (shell P args f kw w)) es"
     "(\<exists>e\<in>set es. is_create e) \<longrightarrow>
        \<not> skip f \<and> \<not> (output f \<and> Popen f) \<and> mode_result f (fst (shell P args f kw w))"
    using shell_grows [of w P args f kw] by blast
  have "events_of P args f kw w = es" using es(1) by (rule events_of_grows)
  with es(2) s have "\<not> (\<exists>e\<in>set (events_of P args f kw w). is_create e)" by blast
  moreover have "\<not> (output f \<and> Popen f) \<longrightarrow>
          shell P args f kw w =
            (Inr RNone,
             emit (LogCommand Skip ''Skipping'' (str_args P args) (the_cwd kw w) (echo f)) w)"
    using s by (simp add: shell_unfold Let_def)
  ultimately show ?thesis by blast
qed

theorem skip_runs_nothing_witness:
  "skip (default_flags\<lparr>skip := True, output := True\<rparr>)
   \<and> shell unix [PStr ''echo'', PStr ''hi''] (default_flags\<lparr>skip := True, output := True\<rparr>)
        no_kwargs w0
     = (Inr RNone, w0\<lparr>trace := [LogCommand Skip ''Skipping'' [''echo'', ''hi''] ''/'' True]\<rparr>)
   \<and> \<not> list_ex is_create (events_of unix [PStr ''echo'', PStr ''hi'']
         (default_flags\<lparr>skip := True, output := True\<rparr>) no_kwargs w0)"
  using skip_runs_nothing [of "default_flags\<lparr>skip := True, output := True\<rparr>" unix
      "[PStr ''echo'', PStr ''hi'']" no_kwargs w0]
  by (simp add: shell_eval unix_def w0_def)

text \<open>
  Claim C10. A skipped invocation and an invocation whose confirmation the user declines
  both return the bare \<open>None\<close>, so the return value does not tell them apart. \<open>None\<close> is
  returned only when no process-creation primitive was called; when one was called, the
  value returned is not \<open>None\<close>: the decoded text under \<open>output\<close>, the process under
  \<open>Popen\<close>, the completed process otherwise.
\<close>

theorem noop_outcomes_identical:
  "(\<not> (output f \<and> Popen f) \<and> skip f \<longrightarrow> fst (shell P args f kw w) = Inr RNone)
   \<and> (\<not> (output f \<and> Popen f) \<and> \<not> skip f \<and> confirm f \<and> answers w = False # rest
        \<longrightarrow> fst (shell P args f kw w) = Inr RNone)
   \<and> (fst (shell P args f kw w) = Inr RNone
        \<longrightarrow> \<not> (\<exists>e\<in>set (events_of P args f kw w). is_create e))
   \<and> ((\<exists>e\<in>set (events_of P args f kw w). is_create e)
        \<longrightarrow> mode_result f (fst (shell P args f kw w)) \<and> fst (shell P args f kw w) \<noteq> Inr RNone)"
proof -
  obtain es where es: "grows w (snd (shell P args f kw w)) es"
     "(\<exists>e\<in>set es. is_create e) \<longrightarrow>
        \<not> skip f \<and> \<not> (output f \<and> Popen f) \<and> mode_result f (fst (shell P args f kw w))"
     "fst (shell P args f kw w) = Inr RNone \<longrightarrow> \<not> (\<exists>e\<in>set es. is_create e)"
    using shell_grows [of w P args f kw] by blast
  have ev: "events_of P args f kw w = es" using es(1) by (rule events_of_grows)
  have 1: "\<not> (output f \<and> Popen f) \<and> skip f \<longrightarrow> fst (shell P args f kw w) = Inr RNone"
    by (simp add: shell_unfold Let_def)
  have 2: "\<not> (output f \<and> Popen f) \<and> \<not> skip f \<and> confirm f \<and> answers w = False # rest
        \<longrightarrow> fst (shell P args f kw w) = Inr RNone"
    by (simp add: shell_unfold Let_def confirmed_def click_confirm_def emit_def)
  from 1 2 es(2,3) show ?thesis unfolding ev by blast
qed

theorem noop_outcomes_identical_witness:
  "fst (shell unix [PStr ''echo'', PStr ''hi''] (default_flags\<lparr>skip := True\<rparr>) no_kwargs w0)
     = Inr RNone
   \<and> fst (shell unix [PStr ''echo'', PStr ''hi''] (default_flags\<lparr>confirm := True\<rparr>) no_kwargs w0)
     = Inr RNone
   \<and> fst (shell unix [PStr ''echo'', PStr ''hi''] default_flags no_kwargs w0)
     = Inr (RCompleted (Argv [''echo'', ''hi'']) 0)
   \<and> fst (shell unix [PStr ''echo'', PStr ''hi''] (default_flags\<lparr>output := True\<rparr>) no_kwargs w0)
     = Inr (RText ''hi'')
   \<and> fst (shell unix [PStr ''echo'', PStr ''hi''] (default_flags\<lparr>Popen := True\<rparr>) no_kwargs w0)
     = Inr (RProcess 42 False)"
  using noop_outcomes_identical [of "default_flags\<lparr>skip := True\<rparr>" unix
      "[PStr ''echo'', PStr ''hi'']" no_kwargs w0 "[]"]
    noop_outcomes_identical [of "default_flags\<lparr>confirm := True\<rparr>" unix
      "[PStr ''echo'', PStr ''hi'']" no_kwargs w0 "[]"]
    noop_outcomes_identical [of "default_flags" unix "[PStr ''echo'', PStr ''hi'']" no_kwargs w0 "[]"]
  by (simp add: shell_eval unix_def w0_def mode_result_def)

section \<open>Properties of the writer\<close>

lemma inv_new: "queue_inv new_wrapper \<and> snapshot_inv new_wrapper \<and> close_order new_wrapper"
  by (simp add: queue_inv_def snapshot_inv_def close_order_def new_wrapper_def holding_def
      in_flight_def drained_def)

lemma snapshot_inv_step:
  assumes "snapshot_inv s" "step a s = Some s'"
  shows "snapshot_inv s'"
proof (cases a)
  case (Write c)
  with assms show ?thesis by (auto simp: step_def write_def snapshot_inv_def split: if_splits)
next
  case CallClose
  with assms show ?thesis by (auto simp: step_def snapshot_inv_def split: if_splits)
next
  case Worker
  with assms show ?thesis
    by (cases "worker_at s")
      (auto simp: step_def worker_def snapshot_inv_def split: if_splits list.splits)
next
  case Closer
  with assms show ?thesis
    by (cases "close_at s") (auto simp: step_def close_def snapshot_inv_def split: if_splits)
next
  case WriteError
  with assms show ?thesis
    by (cases "worker_at s") (auto simp: step_def snapshot_inv_def)
next
  case CloseError
  with assms show ?thesis by (auto simp: step_def snapshot_inv_def split: if_splits)
next
  case ProcessExits
  with assms show ?thesis by (auto simp: step_def snapshot_inv_def)
qed

lemma queue_inv_write:
  assumes "queue_inv s" "write c s = Some s'"
  shows "queue_inv s'"
  using assms unfolding queue_inv_def write_def
  by (auto split: if_splits)

lemma queue_inv_worker:
  assumes "queue_inv s" "worker s = Some s'"
  shows "queue_inv s'"
proof (cases "worker_at s")
  case WLoop
  with assms show ?thesis
    by (auto simp: queue_inv_def worker_def holding_def in_flight_def)
next
  case WGet
  with assms show ?thesis
    by (auto simp: queue_inv_def worker_def holding_def in_flight_def split: list.splits)
next
  case (WWrite c)
  with assms show ?thesis
    by (auto simp: queue_inv_def worker_def holding_def in_flight_def split: if_splits)
next
  case WTaskDone
  with assms show ?thesis
    by (auto simp: queue_inv_def worker_def holding_def in_flight_def split: if_splits)
next
  case WExited
  with assms show ?thesis by (simp add: worker_def)
next
  case WCrashed
  with assms show ?thesis by (simp add: worker_def)
qed

lemma queue_inv_close:
  assumes "queue_inv s" "close s = Some s'"
  shows "queue_inv s'"
  using assms by (cases "close_at s") (auto simp: queue_inv_def close_def split: if_splits)

lemma queue_inv_step:
  assumes "queue_inv s" "step a s = Some s'"
  shows "queue_inv s'"
proof (cases a)
  case (Write c)
  with assms show ?thesis by (simp add: step_def queue_inv_write)
next
  case CallClose
  with assms show ?thesis by (auto simp: step_def queue_inv_def split: if_splits)
next
  case Worker
  with assms show ?thesis by (simp add: step_def queue_inv_worker)
next
  case Closer
  with assms show ?thesis by (simp add: step_def queue_inv_close)
next
  case WriteError
  with assms show ?thesis
    by (cases "worker_at s") (auto simp: step_def queue_inv_def holding_def)
next
  case CloseError
  with assms show ?thesis by (auto simp: step_def queue_inv_def split: if_splits)
next
  case ProcessExits
  with assms show ?thesis by (auto simp: step_def queue_inv_def)
qed

lemma close_order_mono:
  assumes "close_order s"
    and "close_at s' = close_at s" "loop s' = loop s" "stdin_closed s' = stdin_closed s"
    and "at_close s' = at_close s" "exited s \<longrightarrow> exited s'"
    and "prefix (written s) (written s')" "acknowledged s \<le> acknowledged s'"
  shows "close_order s'"
proof -
  have d: "drained s' = drained s" using assms(2) by (simp add: drained_def)
  have "drained s \<longrightarrow> prefix (at_close s) (written s') \<and> length (at_close s) \<le> acknowledged s'"
    using assms(1,7,8) unfolding close_order_def by (meson order_trans prefix_order.order_trans)
  then show ?thesis
    using assms(1-6) d unfolding close_order_def by simp
qed

lemma close_order_write:
  assumes "close_order s" "write c s = Some s'"
  shows "close_order s'"
proof -
  from assms(2) have s': "s' = s\<lparr>queue := queue s @ [c], unfinished := Suc (unfinished s),
                   enqueued := enqueued s @ [c]\<rparr>"
    by (simp add: write_def split: if_splits)
  show ?thesis
    by (rule close_order_mono [OF assms(1)]) (simp_all add: s' acknowledged_def)
qed

lemma close_order_worker:
  assumes "close_order s" "worker s = Some s'"
  shows "close_order s'"
proof (rule close_order_mono [OF assms(1)])
  show "close_at s' = close_at s" "loop s' = loop s" "stdin_closed s' = stdin_closed s"
    "at_close s' = at_close s" "exited s \<longrightarrow> exited s'"
    "prefix (written s) (written s')" "acknowledged s \<le> acknowledged s'"
    using assms(2)
    by (cases "worker_at s"; simp add: worker_def acknowledged_def split: list.splits if_splits; fastforce)+
qed

lemma drained_join:
  assumes "queue_inv s" "snapshot_inv s" "close_at s = CJoin" "unfinished s = 0"
  shows "prefix (at_close s) (written s) \<and> length (at_close s) \<le> acknowledged s"
proof -
  from assms(1,4) have q: "queue s = []" and h: "holding (worker_at s) = 0"
    by (simp_all add: queue_inv_def)
  from h have "worker_at s \<noteq> WCrashed" "in_flight (worker_at s) = []"
    by (cases "worker_at s"; simp add: holding_def in_flight_def)+
  with assms(1) q have e: "enqueued s = written s" by (simp add: queue_inv_def)
  from assms(2,3) have p: "prefix (at_close s) (enqueued s)" by (simp add: snapshot_inv_def)
  from p have "length (at_close s) \<le> length (enqueued s)" by (rule prefix_length_le)
  with p e assms(4) show ?thesis by (simp add: acknowledged_def)
qed

lemma close_order_close:
  assumes "queue_inv s" "snapshot_inv s" "close_order s" "close s = Some s'"
  shows "close_order s'"
proof (cases "close_at s")
  case CNotCalled
  with assms show ?thesis by (simp add: close_def)
next
  case CJoin
  with assms(4) have u: "unfinished s = 0" and s': "s' = s\<lparr>close_at := CStdinClose\<rparr>"
    by (auto simp: close_def split: if_splits)
  from drained_join [OF assms(1,2) CJoin u] assms(3) CJoin show ?thesis
    unfolding s' by (simp add: close_order_def drained_def acknowledged_def)
next
  case CStdinClose
  with assms(4) have s': "s' = s\<lparr>stdin_closed := True, close_at := CClearLoop\<rparr>"
    by (simp add: close_def)
  from assms(3) CStdinClose show ?thesis
    unfolding s' by (simp add: close_order_def drained_def acknowledged_def)
next
  case CClearLoop
  with assms(4) have s': "s' = s\<lparr>loop := False, close_at := CPoll\<rparr>"
    by (simp add: close_def)
  from assms(3) CClearLoop show ?thesis
    unfolding s' by (simp add: close_order_def drained_def acknowledged_def)
next
  case CPoll
  with assms(4) have s': "s' = (if exited s then s\<lparr>close_at := CReturned\<rparr> else s)"
    by (simp add: close_def)
  from assms(3) CPoll show ?thesis
    unfolding s' by (simp add: close_order_def drained_def acknowledged_def)
next
  case CReturned
  with assms show ?thesis by (simp add: close_def)
next
  case CRaised
  with assms show ?thesis by (simp add: close_def)
qed

lemma close_order_step:
  assumes "queue_inv s" "snapshot_inv s" "close_order s" "step a s = Some s'"
  shows "close_order s'"
proof (cases a)
  case (Write c)
  with assms show ?thesis by (simp add: step_def close_order_write)
next
  case CallClose
  with assms(4) have c: "close_at s = CNotCalled"
    and s': "s' = s\<lparr>close_at := CJoin, at_close := enqueued s\<rparr>"
    by (auto simp: step_def split: if_splits)
  from assms(3) c show ?thesis
    unfolding s' by (simp add: close_order_def drained_def acknowledged_def)
next
  case Worker
  with assms show ?thesis by (simp add: step_def close_order_worker)
next
  case Closer
  with assms show ?thesis by (simp add: step_def close_order_close)
next
  case WriteError
  with assms(4) have s': "s' = s\<lparr>worker_at := WCrashed\<rparr>"
    by (cases "worker_at s") (simp_all add: step_def)
  show ?thesis
    by (rule close_order_mono [OF assms(3)]) (simp_all add: s' acknowledged_def)
next
  case CloseError
  with assms(4) have c: "close_at s = CStdinClose"
    and s': "s' = s\<lparr>stdin_closed := True, close_at := CRaised\<rparr>"
    by (auto simp: step_def split: if_splits)
  from assms(3) c show ?thesis
    unfolding s' by (simp add: close_order_def drained_def acknowledged_def)
next
  case ProcessExits
  with assms(4) have s': "s' = s\<lparr>exited := True\<rparr>" by (simp add: step_def)
  show ?thesis
    by (rule close_order_mono [OF assms(3)]) (simp_all add: s' acknowledged_def)
qed

lemma invariants_run:
  assumes "run sched s = Some s'" "queue_inv s" "snapshot_inv s" "close_order s"
  shows "queue_inv s' \<and> snapshot_inv s' \<and> close_order s'"
  using assms
proof (induction sched arbitrary: s)
  case Nil
  then show ?case by simp
next
  case (Cons a sched)
  from Cons.prems(1) obtain s1 where s1: "step a s = Some s1" "run sched s1 = Some s'"
    by (auto split: option.splits)
  from Cons.prems s1(1) have "queue_inv s1" "snapshot_inv s1" "close_order s1"
    by (blast intro: queue_inv_step snapshot_inv_step close_order_step)+
  with Cons.IH [OF s1(2)] show ?case by blast
qed

text \<open>
  The order of \<open>close\<close>, in every state that any interleaving of the threads reaches
  from the new object: the pipe is closed only after \<open>join\<close> has returned, when every
  chunk put before the call of \<open>close\<close> has been written, in order, and acknowledged; the
  flag is cleared only after the pipe is closed; \<open>close\<close> returns only after the process
  has been seen to have exited.
\<close>

lemma close_ordering:
  assumes "run sched new_wrapper = Some s"
  shows "(drained s \<longrightarrow> prefix (at_close s) (written s) \<and> length (at_close s) \<le> acknowledged s)
      \<and> (stdin_closed s \<longleftrightarrow> close_at s = CClearLoop \<or> close_at s = CPoll \<or> close_at s = CReturned
            \<or> close_at s = CRaised)
      \<and> (\<not> loop s \<longleftrightarrow> close_at s = CPoll \<or> close_at s = CReturned)
      \<and> (close_at s = CReturned \<longrightarrow> exited s)"
  using invariants_run [OF assms] inv_new by (simp add: close_order_def)

lemmas wrapper_eval = step_def write_def worker_def close_def maxsize_def new_wrapper_def

lemma close_schedule_run: "run close_schedule new_wrapper = Some closed_wrapper"
  by (simp add: close_schedule_def closed_wrapper_def wrapper_eval)

lemma closed_stays:
  assumes "run sched s = Some s'" "stdin_closed s"
  shows "written s' = written s \<and> stdin_closed s'"
  using assms
proof (induction sched arbitrary: s)
  case Nil
  then show ?case by simp
next
  case (Cons a sched)
  from Cons.prems(1) obtain s1 where s1: "step a s = Some s1" "run sched s1 = Some s'"
    by (auto split: option.splits)
  have "written s1 = written s \<and> stdin_closed s1"
  proof (cases a)
    case Worker
    with s1(1) Cons.prems(2) show ?thesis
      by (cases "worker_at s") (auto simp: step_def worker_def split: list.splits if_splits)
  next
    case Closer
    with s1(1) Cons.prems(2) show ?thesis
      by (cases "close_at s") (auto simp: step_def close_def split: if_splits)
  next
    case WriteError
    with s1(1) Cons.prems(2) show ?thesis
      by (cases "worker_at s") (auto simp: step_def)
  qed (use s1(1) Cons.prems(2) in \<open>auto simp: step_def write_def split: if_splits\<close>)
  with Cons.IH [OF s1(2)] show ?case by simp
qed

lemma blocked_worker_step:
  assumes "step a s = Some s1" "stdin_closed s" "past_test (worker_at s)"
  shows "stdin_closed s1 \<and> past_test (worker_at s1)"
proof (cases a)
  case Worker
  with assms show ?thesis
    by (cases "worker_at s") (auto simp: step_def worker_def past_test_def split: list.splits)
next
  case Closer
  with assms show ?thesis
    by (cases "close_at s") (auto simp: step_def close_def split: if_splits)
next
  case WriteError
  with assms show ?thesis
    by (cases "worker_at s") (auto simp: step_def past_test_def)
qed (use assms in \<open>auto simp: step_def write_def split: if_splits\<close>)

lemma blocked_worker_run:
  assumes "run sched s = Some s'" "stdin_closed s" "past_test (worker_at s)"
  shows "past_test (worker_at s')"
  using assms
proof (induction sched arbitrary: s)
  case Nil
  then show ?case by simp
next
  case (Cons a sched)
  from Cons.prems(1) obtain s1 where s1: "step a s = Some s1" "run sched s1 = Some s'"
    by (auto split: option.splits)
  from blocked_worker_step [OF s1(1) Cons.prems(2,3)] Cons.IH [OF s1(2)] show ?case by blast
qed

text \<open>
  Claim C2 does not hold of the code in one part: clearing the flag does not make the worker
  loop exit. In the run \<open>close_schedule\<close> the two chunks are written and acknowledged,
  the pipe is closed, the flag is cleared and \<open>close\<close> returns after the process has
  exited, in the order of the claim (\<open>close_ordering\<close> has the order for every run). But
  the worker tested the flag before it was cleared and waits in \<open>self._queue.get()\<close> on
  the empty queue: it takes no step, and whatever happens afterwards it never leaves the
  loop (a later \<open>write\<close> wakes it to die of writing to the closed pipe).
\<close>

theorem worker_never_leaves_loop:
  "run close_schedule new_wrapper = Some closed_wrapper
   \<and> close_at closed_wrapper = CReturned
   \<and> worker_at closed_wrapper = WGet
   \<and> worker closed_wrapper = None
   \<and> (\<forall>sched s'. run sched closed_wrapper = Some s' \<longrightarrow> worker_at s' \<noteq> WExited)"
proof -
  have "\<forall>sched s'. run sched closed_wrapper = Some s' \<longrightarrow> worker_at s' \<noteq> WExited"
  proof (intro allI impI)
    fix sched s'
    assume r: "run sched closed_wrapper = Some s'"
    have "past_test (worker_at s')"
      by (rule blocked_worker_run [OF r]) (simp_all add: closed_wrapper_def past_test_def)
    then show "worker_at s' \<noteq> WExited" by (auto simp: past_test_def)
  qed
  then show ?thesis
    by (simp add: close_schedule_run) (simp add: closed_wrapper_def worker_def)
qed

theorem worker_never_leaves_loop_witness:
  "run [Write ''c'', Worker, Worker] closed_wrapper
     = Some (closed_wrapper\<lparr>unfinished := 1, worker_at := WCrashed, enqueued := [''a'', ''b'', ''c'']\<rparr>)
   \<and> worker_at (closed_wrapper\<lparr>unfinished := 1, worker_at := WCrashed, enqueued := [''a'', ''b'', ''c'']\<rparr>)
       \<noteq> WExited"
  using worker_never_leaves_loop
  by (simp add: closed_wrapper_def wrapper_eval)

text \<open>
  Claim C3, as stated, fails: \<open>write\<close> is \<open>self._queue.put(data)\<close> and tests nothing.
  After \<open>close\<close> has returned, \<open>write("c")\<close> returns normally with the chunk queued; the
  worker takes it and dies of writing to the closed pipe, so the chunk is lost and the
  producer is told nothing; ten more writes fill the queue, and the next one blocks, with
  no thread left that could take a step.
\<close>

theorem write_after_close_counterexample:
  "run close_schedule new_wrapper = Some closed_wrapper
   \<and> close_at closed_wrapper = CReturned
   \<and> write ''c'' closed_wrapper
       = Some (closed_wrapper\<lparr>queue := [''c''], unfinished := 1, enqueued := [''a'', ''b'', ''c'']\<rparr>)
   \<and> run late_writes closed_wrapper = Some stuck_wrapper
   \<and> written stuck_wrapper = [''a'', ''b'']
   \<and> write ''11'' stuck_wrapper = None
   \<and> worker stuck_wrapper = None
   \<and> close stuck_wrapper = None"
  by (simp add: close_schedule_run) (simp add: closed_wrapper_def stuck_wrapper_def late_writes_def wrapper_eval)

text \<open>
  Claim C3, amended. A \<open>write\<close> made after \<open>close\<close> has been called is not rejected:
  it puts the chunk on the queue as any \<open>write\<close> does, returning when fewer than ten
  chunks are queued and blocking otherwise, and raises nothing. Once the pipe is closed
  nothing more is written to it, so a chunk that is still queued or put later never
  reaches the pipe.
\<close>

theorem write_after_close_not_rejected:
  "close_at s \<noteq> CNotCalled \<Longrightarrow>
     (length (queue s) < maxsize \<longrightarrow>
        write c s = Some (s\<lparr>queue := queue s @ [c], unfinished := Suc (unfinished s),
                             enqueued := enqueued s @ [c]\<rparr>))
     \<and> (maxsize \<le> length (queue s) \<longrightarrow> write c s = None)
     \<and> (stdin_closed s \<and> run sched s = Some s' \<longrightarrow> written s' = written s \<and> stdin_closed s')"
  using closed_stays [of sched s s'] by (auto simp: write_def)

theorem write_after_close_not_rejected_witness:
  "close_at closed_wrapper \<noteq> CNotCalled
   \<and> write ''c'' closed_wrapper
       = Some (closed_wrapper\<lparr>queue := [''c''], unfinished := 1, enqueued := [''a'', ''b'', ''c'']\<rparr>)
   \<and> maxsize \<le> length (queue stuck_wrapper)
   \<and> write ''11'' stuck_wrapper = None
   \<and> stdin_closed closed_wrapper
   \<and> run late_writes closed_wrapper = Some stuck_wrapper
   \<and> written stuck_wrapper = written closed_wrapper"
  using write_after_close_not_rejected [of closed_wrapper "''c''" late_writes stuck_wrapper]
    write_after_close_not_rejected [of stuck_wrapper "''11''" "[]" stuck_wrapper]
  by (simp add: closed_wrapper_def stuck_wrapper_def late_writes_def wrapper_eval)

end
